theory Spec2Isabelle
  imports Main
begin

section \<open>Strings of the editor\<close>

text \<open>
  The editor of \<^verbatim>\<open>script.js\<close> is one class, \<^verbatim>\<open>MarkdownTableEditor\<close>. Its text is a
  JavaScript string; here a string is a \<^typ>\<open>char list\<close>, a character being read as
  a code point below 256. The content of a table cell is its text.
\<close>

abbreviation newline :: char where
  "newline \<equiv> CHR 0x0A"

abbreviation pipe :: char where
  "pipe \<equiv> CHR ''|''"

text \<open>
  What \<^verbatim>\<open>String.prototype.trim\<close> removes and what \<^verbatim>\<open>\s\<close> matches: tab, line feed,
  vertical tab, form feed, carriage return, space and the no-break space (the white space
  and line terminators of the language, among the code points below 256).
\<close>

definition is_space :: "char \<Rightarrow> bool" where
  "is_space c =
     (c = CHR 0x09 \<or> c = CHR 0x0A \<or> c = CHR 0x0B \<or> c = CHR 0x0C \<or> c = CHR 0x0D
      \<or> c = CHR 0x20 \<or> c = CHR 0xA0)"

text \<open>\<^verbatim>\<open>s.trim()\<close>\<close>

definition trim :: "string \<Rightarrow> string" where
  "trim s = rev (dropWhile is_space (rev (dropWhile is_space s)))"

text \<open>
  \<^verbatim>\<open>s.split(c)\<close> for a separator of one character: the pieces between the
  occurrences of \<open>c\<close>, one more than there are occurrences (\<^verbatim>\<open>''.split('|')\<close> is \<^verbatim>\<open>['']\<close>).
\<close>

fun split_on :: "char \<Rightarrow> string \<Rightarrow> string list" where
  "split_on c [] = [[]]"
| "split_on c (x # xs) =
     (if x = c then [] # split_on c xs
      else (case split_on c xs of
              [] \<Rightarrow> [[x]]
            | w # ws \<Rightarrow> (x # w) # ws))"

text \<open>\<^verbatim>\<open>cells.join(sep)\<close>\<close>

fun join :: "string \<Rightarrow> string list \<Rightarrow> string" where
  "join sep [] = []"
| "join sep [x] = x"
| "join sep (x # y # ys) = x @ sep @ join sep (y # ys)"

section \<open>Markdown to table\<close>

text \<open>
  The class of the separator's pattern, \<^verbatim>\<open>[\s\-\|:]\<close>.
\<close>

definition sep_char :: "char \<Rightarrow> bool" where
  "sep_char c = (is_space c \<or> c = CHR ''-'' \<or> c = pipe \<or> c = CHR '':'')"

primrec all_sep_chars :: "string \<Rightarrow> bool" where
  "all_sep_chars [] = True"
| "all_sep_chars (c # cs) = (sep_char c \<and> all_sep_chars cs)"

text \<open>
  \<^verbatim>\<open>line.match(/^\s*\|[\s\-\|:]+\|\s*$/)\<close>, as a truth value. The pattern is anchored
  at both ends. Since a pipe is no white space, the leading \<^verbatim>\<open>\s*\<close> can only be the
  whole run of white space before the first pipe, and the trailing \<^verbatim>\<open>\s*\<close> the whole
  run after the last one; what lies between the two pipes must be one character or more,
  all of the class.
\<close>

definition is_separator :: "string \<Rightarrow> bool" where
  "is_separator line =
     (case dropWhile is_space line of
        [] \<Rightarrow> False
      | c # r \<Rightarrow>
          c = pipe \<and>
          (case dropWhile is_space (rev r) of
             [] \<Rightarrow> False
           | d # m \<Rightarrow> d = pipe \<and> m \<noteq> [] \<and> all_sep_chars m))"

text \<open>
  \<^verbatim>\<open>if (cells[0] === '') cells.shift();\<close> and
  \<^verbatim>\<open>if (cells[cells.length - 1] === '') cells.pop();\<close>: on an empty array both reads
  are \<^verbatim>\<open>undefined\<close> and nothing is removed.
\<close>

definition shift_empty :: "string list \<Rightarrow> string list" where
  "shift_empty cells = (case cells of [] \<Rightarrow> [] | c # cs \<Rightarrow> if c = [] then cs else c # cs)"

definition pop_empty :: "string list \<Rightarrow> string list" where
  "pop_empty cells = (if cells = [] then [] else if last cells = [] then butlast cells else cells)"

text \<open>The cells of a retained line (lines 83 to 86).\<close>

definition line_cells :: "string \<Rightarrow> string list" where
  "line_cells line = pop_empty (shift_empty (map trim (split_on pipe line)))"

text \<open>
  The loop of \<^verbatim>\<open>markdownToTable\<close> from index \<open>i\<close> on, \<open>rows\<close> being the rows pushed
  so far.
\<close>

fun parse_lines :: "nat \<Rightarrow> string list \<Rightarrow> string list list \<Rightarrow> string list list" where
  "parse_lines i [] rows = rows"
| "parse_lines i (l # ls) rows =
     (let line = trim l in
      if line = [] \<or> pipe \<notin> set line then parse_lines (Suc i) ls rows
      else if i = 1 \<and> is_separator line then parse_lines (Suc i) ls rows
      else parse_lines (Suc i) ls (rows @ [line_cells line]))"

text \<open>\<^verbatim>\<open>markdownToTable(markdown)\<close>; \<open>None\<close> is \<^verbatim>\<open>null\<close>.\<close>

definition markdownToTable :: "string \<Rightarrow> string list list option" where
  "markdownToTable markdown =
     (let lines = split_on newline (trim markdown) in
      if length lines < 2 then None
      else (let rows = parse_lines 0 lines [] in
            if length rows > 0 then Some rows else None))"

section \<open>The table and the editor\<close>

text \<open>
  The grid is the element \<^verbatim>\<open>editableTable\<close>. Every null check of the source is on one
  of three things: the \<^verbatim>\<open>thead\<close> element, its row (\<^verbatim>\<open>thead.querySelector('tr')\<close>)
  and the \<^verbatim>\<open>tbody\<close> element. So \<open>thead\<close> is \<open>None\<close> where the element is missing,
  \<open>Some None\<close> where it holds no row, and \<open>Some (Some cells)\<close> where its row holds the
  \<^verbatim>\<open>th\<close> cells; \<open>tbody\<close> is \<open>None\<close> where the element is missing and else the list of
  its rows, each the list of its \<^verbatim>\<open>td\<close> cells.
\<close>

type_synonym row = "string list"

record table =
  thead :: "row option option"
  tbody :: "row list option"

text \<open>
  The fields of the class that the handlers read and write, and the text area
  \<^verbatim>\<open>markdownInput.value\<close>. \<open>selectedRow\<close> is a JavaScript number that the source
  decrements before it indexes, hence an \<^typ>\<open>int\<close>.
\<close>

record editor =
  editableTable :: table
  markdownInput :: string
  selectedRow :: "int option"
  selectedColumn :: "nat option"
  isDragMode :: bool
  draggedSrcColIndex :: "nat option"
  swapInProgress :: bool

text \<open>
  A handler either runs to its end or throws a \<^verbatim>\<open>TypeError\<close> (a method called on
  \<^verbatim>\<open>null\<close>) that nothing catches; the editor is then left as it was at the throw.
\<close>

datatype result = Done editor | Threw editor

primrec after :: "result \<Rightarrow> editor" where
  "after (Done st) = st"
| "after (Threw st) = st"

primrec threw :: "result \<Rightarrow> bool" where
  "threw (Done st) = False"
| "threw (Threw st) = True"

text \<open>\<^verbatim>\<open>xs[i]\<close> is \<^verbatim>\<open>undefined\<close> out of range; \<open>remove_nth\<close> is \<^verbatim>\<open>xs[i].remove()\<close>.\<close>

definition in_range :: "int \<Rightarrow> 'a list \<Rightarrow> bool" where
  "in_range i xs = (0 \<le> i \<and> i < int (length xs))"

definition remove_nth :: "nat \<Rightarrow> 'a list \<Rightarrow> 'a list" where
  "remove_nth i xs = take i xs @ drop (Suc i) xs"

section \<open>Table to markdown\<close>

text \<open>One line of output: \<^verbatim>\<open>'| ' + cellTexts.join(' | ') + ' |\n'\<close>.\<close>

definition row_line :: "row \<Rightarrow> string" where
  "row_line cellTexts = ''| '' @ join '' | '' cellTexts @ '' |'' @ [newline]"

definition header_lines :: "row \<Rightarrow> string" where
  "header_lines cells =
     (if length cells > 0
      then row_line cells @ row_line (map (\<lambda>c. ''---'') cells)
      else [])"

definition body_line :: "row \<Rightarrow> string" where
  "body_line cells = (if length cells = 0 then [] else row_line cells)"

text \<open>\<^verbatim>\<open>tableToMarkdown()\<close>, of the grid.\<close>

definition tableToMarkdown :: "table \<Rightarrow> string" where
  "tableToMarkdown t =
     (if thead t = None \<and> tbody t = None then []
      else (case thead t of
              Some (Some cells) \<Rightarrow> header_lines cells
            | _ \<Rightarrow> [])
           @ (case tbody t of
                Some bodyRows \<Rightarrow> concat (map body_line bodyRows)
              | None \<Rightarrow> []))"

definition updateMarkdown :: "editor \<Rightarrow> editor" where
  "updateMarkdown st = st\<lparr>markdownInput := tableToMarkdown (editableTable st)\<rparr>"

section \<open>Rendering and parsing the text area\<close>

text \<open>
  \<^verbatim>\<open>renderTable(rows)\<close>: the first row becomes the header, \<^verbatim>\<open>rows.slice(1)\<close> the body.
\<close>

definition renderTable :: "row list \<Rightarrow> editor \<Rightarrow> editor" where
  "renderTable rows st =
     st\<lparr>editableTable :=
          \<lparr>thead = Some (case rows of [] \<Rightarrow> None | r # rs \<Rightarrow> Some r),
           tbody = Some (drop 1 rows)\<rparr>\<rparr>"

definition clearTable :: "editor \<Rightarrow> editor" where
  "clearTable st = st\<lparr>editableTable := \<lparr>thead = Some None, tbody = Some []\<rparr>\<rparr>"

definition parseMarkdown :: "editor \<Rightarrow> editor" where
  "parseMarkdown st =
     (let markdown = markdownInput st in
      if trim markdown = [] then clearTable st
      else (case markdownToTable markdown of
              Some t \<Rightarrow> renderTable t st
            | None \<Rightarrow> st))"

section \<open>Selection and mode\<close>

definition clearSelections :: "editor \<Rightarrow> editor" where
  "clearSelections st = st\<lparr>selectedRow := None, selectedColumn := None\<rparr>"

text \<open>
  \<^verbatim>\<open>toggleMode()\<close>. After the flip and \<^verbatim>\<open>clearSelections()\<close> it sets attributes,
  styles and classes of the cells, which are no part of the state above.
\<close>

definition toggleMode :: "editor \<Rightarrow> editor" where
  "toggleMode st = clearSelections (st\<lparr>isDragMode := \<not> isDragMode st\<rparr>)"

text \<open>
  The target of a click on the table: the \<^verbatim>\<open>td\<close> of body row \<open>k\<close> (its index among
  \<^verbatim>\<open>tbody.children\<close>), the \<^verbatim>\<open>th\<close> of index \<open>c\<close> among the header's children, or
  another element, with whether it lies inside a cell (\<^verbatim>\<open>target.closest\<close>).
\<close>

datatype target = TD nat | TH nat | Other bool

text \<open>
  The click listener of \<^verbatim>\<open>initSelectionSystem\<close>. Both cell branches query the
  \<^verbatim>\<open>tbody\<close> and call a method on it; the header branch does so after it has set the
  selection.
\<close>

definition click :: "target \<Rightarrow> editor \<Rightarrow> result" where
  "click tg st =
     (if isDragMode st then Done st
      else (case tg of
              TD k \<Rightarrow>
                (case tbody (editableTable st) of
                   None \<Rightarrow> Threw st
                 | Some rows \<Rightarrow>
                     (let rowIndex = int k + 1
                      in Done ((clearSelections st)\<lparr>selectedRow := Some rowIndex\<rparr>)))
            | TH cellIndex \<Rightarrow>
                (let st1 = (clearSelections st)\<lparr>selectedColumn := Some cellIndex\<rparr>
                 in (case tbody (editableTable st) of
                       None \<Rightarrow> Threw st1
                     | Some rows \<Rightarrow> Done st1))
            | Other inCell \<Rightarrow>
                (if \<not> inCell then Done (clearSelections st) else Done st)))"

section \<open>Structural operations\<close>

text \<open>\<^verbatim>\<open>addRow()\<close>: \<^verbatim>\<open>querySelector('thead tr')\<close> is null without the element or its row.\<close>

definition addRow :: "editor \<Rightarrow> editor" where
  "addRow st =
     (case tbody (editableTable st) of
        None \<Rightarrow> st
      | Some rows \<Rightarrow>
          (case thead (editableTable st) of
             Some (Some headerCells) \<Rightarrow>
               (let colCount = length headerCells;
                    newRow = replicate colCount []
                in updateMarkdown
                     (st\<lparr>editableTable := (editableTable st)\<lparr>tbody := Some (rows @ [newRow])\<rparr>\<rparr>))
           | _ \<Rightarrow> st))"

text \<open>The decimal digits of a number, for \<^verbatim>\<open>`Header ${colCount + 1}`\<close>.\<close>

fun digits :: "nat \<Rightarrow> string" where
  "digits n =
     (if n < 10 then [char_of (48 + n)]
      else digits (n div 10) @ [char_of (48 + n mod 10)])"

text \<open>
  \<^verbatim>\<open>addColumn()\<close>: \<^verbatim>\<open>headerRow.querySelectorAll\<close> throws where the \<^verbatim>\<open>thead\<close> holds
  no row.
\<close>

definition addColumn :: "editor \<Rightarrow> result" where
  "addColumn st =
     (case (thead (editableTable st), tbody (editableTable st)) of
        (Some headerRow, Some bodyRows) \<Rightarrow>
          (case headerRow of
             None \<Rightarrow> Threw st
           | Some headerCells \<Rightarrow>
               (let colCount = length headerCells;
                    th = ''Header '' @ digits (colCount + 1)
                in Done (updateMarkdown
                     (st\<lparr>editableTable :=
                          \<lparr>thead = Some (Some (headerCells @ [th])),
                           tbody = Some (map (\<lambda>row. row @ [[]]) bodyRows)\<rparr>\<rparr>))))
      | _ \<Rightarrow> Done st)"

text \<open>\<^verbatim>\<open>deleteRow()\<close>\<close>

definition deleteRow :: "editor \<Rightarrow> editor" where
  "deleteRow st =
     (case tbody (editableTable st) of
        None \<Rightarrow> st
      | Some rows \<Rightarrow>
          (case (selectedRow st, isDragMode st) of
             (Some r, False) \<Rightarrow>
               (if in_range (r - 1) rows
                then updateMarkdown (clearSelections
                       (st\<lparr>editableTable :=
                            (editableTable st)\<lparr>tbody := Some (remove_nth (nat (r - 1)) rows)\<rparr>\<rparr>))
                else st)
           | _ \<Rightarrow>
               (if length rows > 0
                then updateMarkdown
                       (st\<lparr>editableTable := (editableTable st)\<lparr>tbody := Some (butlast rows)\<rparr>\<rparr>)
                else st)))"

text \<open>
  \<^verbatim>\<open>deleteColumn()\<close>: both branches start with \<^verbatim>\<open>headerRow.querySelectorAll('th')\<close>,
  which throws where the \<^verbatim>\<open>thead\<close> holds no row.
\<close>

definition delete_cell :: "nat \<Rightarrow> row \<Rightarrow> row" where
  "delete_cell c cells = (if c < length cells then remove_nth c cells else cells)"

definition delete_last_cell :: "row \<Rightarrow> row" where
  "delete_last_cell cells = (if length cells > 0 then butlast cells else cells)"

definition deleteColumn :: "editor \<Rightarrow> result" where
  "deleteColumn st =
     (case (thead (editableTable st), tbody (editableTable st)) of
        (Some headerRow, Some bodyRows) \<Rightarrow>
          (case headerRow of
             None \<Rightarrow> Threw st
           | Some headerCells \<Rightarrow>
               (case (selectedColumn st, isDragMode st) of
                  (Some c, False) \<Rightarrow>
                    (if length headerCells \<le> 1 then Done st
                     else if c < length headerCells
                     then Done (updateMarkdown (clearSelections
                            (st\<lparr>editableTable :=
                                 \<lparr>thead = Some (Some (remove_nth c headerCells)),
                                  tbody = Some (map (delete_cell c) bodyRows)\<rparr>\<rparr>)))
                     else Done st)
                | _ \<Rightarrow>
                    (if length headerCells \<le> 1 then Done st
                     else Done (updateMarkdown
                            (st\<lparr>editableTable :=
                                 \<lparr>thead = Some (Some (butlast headerCells)),
                                  tbody = Some (map delete_last_cell bodyRows)\<rparr>\<rparr>)))))
      | _ \<Rightarrow> Done st)"

section \<open>Drag and drop\<close>

text \<open>
  \<^verbatim>\<open>handleDragStart(e, index)\<close>; \<open>draggable\<close> says whether the target carries the
  attribute \<^verbatim>\<open>draggable="true"\<close>.
\<close>

definition handleDragStart :: "bool \<Rightarrow> nat \<Rightarrow> editor \<Rightarrow> editor" where
  "handleDragStart draggable index st =
     (if \<not> isDragMode st then st
      else if \<not> draggable then st
      else st\<lparr>draggedSrcColIndex := Some index\<rparr>)"

definition handleDragEnd :: "editor \<Rightarrow> editor" where
  "handleDragEnd st = st\<lparr>draggedSrcColIndex := None\<rparr>"

text \<open>
  The body of the loop of \<^verbatim>\<open>handleDrop\<close> on the cells of one row: the contents are
  exchanged where both cells exist.
\<close>

definition swap_cells :: "nat \<Rightarrow> nat \<Rightarrow> row \<Rightarrow> row" where
  "swap_cells sourceIndex targetIndex cells =
     (if sourceIndex < length cells \<and> targetIndex < length cells
      then (cells[sourceIndex := cells ! targetIndex])[targetIndex := cells ! sourceIndex]
      else cells)"

text \<open>The loop over \<^verbatim>\<open>editableTable.rows\<close>: the header's row and the body's rows.\<close>

definition swap_columns :: "nat \<Rightarrow> nat \<Rightarrow> table \<Rightarrow> table" where
  "swap_columns sourceIndex targetIndex t =
     \<lparr>thead = map_option (map_option (swap_cells sourceIndex targetIndex)) (thead t),
      tbody = map_option (map (swap_cells sourceIndex targetIndex)) (tbody t)\<rparr>"

text \<open>The \<^verbatim>\<open>try\<close> block of \<^verbatim>\<open>handleDrop\<close>.\<close>

definition swap_block :: "nat \<Rightarrow> nat \<Rightarrow> editor \<Rightarrow> result" where
  "swap_block sourceIndex targetIndex st =
     Done (updateMarkdown
       (st\<lparr>editableTable := swap_columns sourceIndex targetIndex (editableTable st)\<rparr>))"

text \<open>
  \<^verbatim>\<open>handleDrop(e, targetIndex)\<close> around a \<^verbatim>\<open>try\<close> block \<open>block\<close>: the \<^verbatim>\<open>catch\<close> logs
  what the block throws and the \<^verbatim>\<open>finally\<close> resets the drag state, so the handler
  itself never throws.
\<close>

definition handleDrop_around :: "(nat \<Rightarrow> nat \<Rightarrow> editor \<Rightarrow> result) \<Rightarrow> nat \<Rightarrow> editor \<Rightarrow> editor" where
  "handleDrop_around block targetIndex st =
     (if \<not> isDragMode st then st
      else if swapInProgress st then st
      else (case draggedSrcColIndex st of
              None \<Rightarrow> st
            | Some sourceIndex \<Rightarrow>
                (if targetIndex = sourceIndex then st
                 else (let st1 = st\<lparr>swapInProgress := True\<rparr>;
                           st2 = after (block sourceIndex targetIndex st1)
                       in st2\<lparr>draggedSrcColIndex := None, swapInProgress := False\<rparr>))))"

definition handleDrop :: "nat \<Rightarrow> editor \<Rightarrow> editor" where
  "handleDrop targetIndex st = handleDrop_around swap_block targetIndex st"

section \<open>Sequences of gestures\<close>

text \<open>
  The listeners that \<^verbatim>\<open>init\<close> and \<^verbatim>\<open>attachDragListeners\<close> install, as events. A
  handler that throws leaves the editor as it was at the throw, and the next event finds
  it so.
\<close>

datatype event =
  AddRow | AddColumn | DeleteRow | DeleteColumn | Drop nat
  | DragStart bool nat | DragEnd | ToggleMode | Click target

fun handle :: "event \<Rightarrow> editor \<Rightarrow> editor" where
  "handle AddRow st = addRow st"
| "handle AddColumn st = after (addColumn st)"
| "handle DeleteRow st = deleteRow st"
| "handle DeleteColumn st = after (deleteColumn st)"
| "handle (Drop targetIndex) st = handleDrop targetIndex st"
| "handle (DragStart draggable index) st = handleDragStart draggable index st"
| "handle DragEnd st = handleDragEnd st"
| "handle ToggleMode st = toggleMode st"
| "handle (Click tg) st = after (click tg st)"

fun run :: "event list \<Rightarrow> editor \<Rightarrow> editor" where
  "run [] st = st"
| "run (e # es) st = run es (handle e st)"

section \<open>The row invariant\<close>

text \<open>
  The number of header cells (none where there is no header row), the body rows (none
  where there is no body), and the invariant: every body row has as many cells as the
  header.
\<close>

definition header_length :: "table \<Rightarrow> nat" where
  "header_length t = (case thead t of Some (Some cells) \<Rightarrow> length cells | _ \<Rightarrow> 0)"

definition body_rows :: "table \<Rightarrow> row list" where
  "body_rows t = (case tbody t of Some rows \<Rightarrow> rows | None \<Rightarrow> [])"

definition uniform :: "table \<Rightarrow> bool" where
  "uniform t = list_all (\<lambda>r. length r = header_length t) (body_rows t)"

section \<open>Sample editors\<close>

text \<open>
  The state the constructor and \<^verbatim>\<open>initDragAndDrop\<close> leave, on a page whose table is
  \<open>t\<close> and whose text area is empty.
\<close>

definition new_editor :: "table \<Rightarrow> editor" where
  "new_editor t =
     \<lparr>editableTable = t, markdownInput = [], selectedRow = None, selectedColumn = None,
      isDragMode = False, draggedSrcColIndex = None, swapInProgress = False\<rparr>"

definition abc_table :: table where
  "abc_table =
     \<lparr>thead = Some (Some [''A'', ''B'', ''C'']),
      tbody = Some [[''1'', ''2'', ''3''], [''4'', ''5'', ''6'']]\<rparr>"

definition ragged_table :: table where
  "ragged_table =
     \<lparr>thead = Some (Some [''A'', ''B'', ''C'']),
      tbody = Some [[''1''], [''4'', ''5'', ''6'']]\<rparr>"

definition one_column_table :: table where
  "one_column_table = \<lparr>thead = Some (Some [''A'']), tbody = Some [[''1''], [''2'']]\<rparr>"

definition dragging :: editor where
  "dragging = (new_editor abc_table)\<lparr>isDragMode := True, draggedSrcColIndex := Some 0\<rparr>"

definition dragging_ragged :: editor where
  "dragging_ragged =
     (new_editor ragged_table)\<lparr>isDragMode := True, draggedSrcColIndex := Some 0\<rparr>"

definition stale_row :: editor where
  "stale_row = (new_editor abc_table)\<lparr>selectedRow := Some 5\<rparr>"

definition stale_column :: editor where
  "stale_column = (new_editor abc_table)\<lparr>selectedColumn := Some 7\<rparr>"

definition lenient_markdown :: string where
  "lenient_markdown =
     ''| A | B |'' @ [newline] @ ''| not-a-separator |'' @ [newline] @ ''|:--|--:|''"

definition shifted_markdown :: string where
  "shifted_markdown =
     [newline] @ ''| A |'' @ [newline] @ ''|---|'' @ [newline] @ ''| 1 |''"

definition leading_separator_markdown :: string where
  "leading_separator_markdown = [newline] @ ''|---|'' @ [newline] @ ''| 1 |''"

definition trailing_blank_markdown :: string where
  "trailing_blank_markdown = ''| A | B |'' @ [newline, newline]"

definition one_line_editor :: editor where
  "one_line_editor = (new_editor abc_table)\<lparr>markdownInput := ''| A | B |''\<rparr>"

definition spaced_table :: table where
  "spaced_table =
     \<lparr>thead = Some (Some ['' A '', ''B'']),
      tbody = Some [[''1'', ''''], [''x y'', ''---'']]\<rparr>"

definition pipe_table :: table where
  "pipe_table = \<lparr>thead = Some (Some [''a|b'']), tbody = Some []\<rparr>"

definition newline_table :: table where
  "newline_table = \<lparr>thead = Some (Some [CHR ''a'' # newline # ''b'']), tbody = Some []\<rparr>"

section \<open>Lines the parser retains\<close>

text \<open>
  The two tests of the loop of \<^verbatim>\<open>markdownToTable\<close>, on line \<open>l\<close> at index \<open>i\<close>:
  the line is not blank and holds a pipe (line 76), and it is not a separator at
  index 1 (line 79). \<open>retained_rows\<close> are the cells of the lines that pass both, in
  the order of the lines.
\<close>

definition table_line :: "string \<Rightarrow> bool" where
  "table_line l = (trim l \<noteq> [] \<and> pipe \<in> set (trim l))"

definition retained :: "nat \<times> string \<Rightarrow> bool" where
  "retained p = (table_line (snd p) \<and> \<not> (fst p = 1 \<and> is_separator (trim (snd p))))"

definition retained_rows :: "string list \<Rightarrow> string list list" where
  "retained_rows ls = map (\<lambda>p. line_cells (trim (snd p))) (filter retained (enumerate 0 ls))"

section \<open>Well-formed tables\<close>

text \<open>
  \<^verbatim>\<open>editableTable.rows\<close>: the header's row, where there is one, and then the body's rows.
  A table is well formed when its header has one cell or more and every body row has as
  many cells as the header. A cell is plain when its text holds no pipe and no line feed.
\<close>

definition table_rows :: "table \<Rightarrow> row list" where
  "table_rows t =
     (case thead t of Some (Some cells) \<Rightarrow> [cells] | _ \<Rightarrow> [])
     @ (case tbody t of Some rows \<Rightarrow> rows | None \<Rightarrow> [])"

definition well_formed :: "table \<Rightarrow> bool" where
  "well_formed t =
     (case thead t of
        Some (Some cells) \<Rightarrow>
          length cells \<ge> 1
          \<and> (case tbody t of
               Some rows \<Rightarrow> list_all (\<lambda>r. length r = length cells) rows
             | None \<Rightarrow> True)
      | _ \<Rightarrow> False)"

definition plain :: "string \<Rightarrow> bool" where
  "plain c = (pipe \<notin> set c \<and> newline \<notin> set c)"

text \<open>
  A line of output without its line feed, the part of it that one cell contributes after
  the leading pipe, and what every such line is: it starts and ends with a pipe.
\<close>

definition row_text :: "row \<Rightarrow> string" where
  "row_text cells = ''| '' @ join '' | '' cells @ '' |''"

definition padded :: "string \<Rightarrow> string" where
  "padded c = CHR '' '' # c @ '' |''"

definition framed :: "string \<Rightarrow> bool" where
  "framed l = (l \<noteq> [] \<and> hd l = pipe \<and> last l = pipe)"

section \<open>Structural operations keep the rows uniform\<close>

lemma table_updateMarkdown [simp]: "editableTable (updateMarkdown st) = editableTable st"
  by (simp add: updateMarkdown_def)

lemma table_clearSelections [simp]: "editableTable (clearSelections st) = editableTable st"
  by (simp add: clearSelections_def)

lemma length_remove_nth: "i < length xs \<Longrightarrow> length (remove_nth i xs) = length xs - 1"
  by (simp add: remove_nth_def)

lemma set_remove_nth: "x \<in> set (remove_nth i xs) \<Longrightarrow> x \<in> set xs"
  unfolding remove_nth_def by (auto dest: in_set_takeD in_set_dropD)

lemma list_all_remove_nth: "list_all P xs \<Longrightarrow> list_all P (remove_nth i xs)"
  by (auto simp: list_all_iff dest: set_remove_nth)

lemma list_all_butlast: "list_all P xs \<Longrightarrow> list_all P (butlast xs)"
  by (auto simp: list_all_iff dest: in_set_butlastD)

lemma length_swap_cells [simp]: "length (swap_cells s t r) = length r"
  by (simp add: swap_cells_def)

lemma uniform_addRow: "uniform (editableTable st) \<Longrightarrow> uniform (editableTable (addRow st))"
  by (auto simp: addRow_def uniform_def header_length_def body_rows_def list_all_iff
      split: option.splits)

lemma uniform_addColumn:
  "uniform (editableTable st) \<Longrightarrow> uniform (editableTable (after (addColumn st)))"
  by (auto simp del: digits.simps
      simp: Let_def addColumn_def uniform_def header_length_def body_rows_def list_all_iff
      split: option.splits)

lemma thead_deleteRow [simp]: "thead (editableTable (deleteRow st)) = thead (editableTable st)"
  by (simp add: deleteRow_def split: option.splits bool.splits)

lemma tbody_deleteRow:
  "tbody (editableTable st) = Some rows \<Longrightarrow>
   tbody (editableTable (deleteRow st)) = Some rows
   \<or> (\<exists>i. tbody (editableTable (deleteRow st)) = Some (remove_nth i rows))
   \<or> tbody (editableTable (deleteRow st)) = Some (butlast rows)"
  by (auto simp: deleteRow_def split: option.splits bool.splits)

lemma uniform_deleteRow:
  "uniform (editableTable st) \<Longrightarrow> uniform (editableTable (deleteRow st))"
proof (cases "tbody (editableTable st)")
  case None
  then show ?thesis by (simp add: deleteRow_def uniform_def body_rows_def)
next
  case (Some rows)
  assume u: "uniform (editableTable st)"
  have h: "header_length (editableTable (deleteRow st)) = header_length (editableTable st)"
    by (simp add: header_length_def)
  from u Some have "list_all (\<lambda>r. length r = header_length (editableTable st)) rows"
    by (simp add: uniform_def body_rows_def)
  with tbody_deleteRow [OF Some] h show ?thesis
    by (auto simp: uniform_def body_rows_def list_all_remove_nth list_all_butlast)
qed

lemma uniform_deleteColumn:
  "uniform (editableTable st) \<Longrightarrow> uniform (editableTable (after (deleteColumn st)))"
  by (auto simp: deleteColumn_def uniform_def header_length_def body_rows_def list_all_iff
      delete_cell_def delete_last_cell_def length_remove_nth
      split: option.splits bool.splits)

lemma header_length_swap_columns [simp]:
  "header_length (swap_columns s t tb) = header_length tb"
  by (cases "thead tb"; simp add: header_length_def swap_columns_def split: option.splits)

lemma body_rows_swap_columns [simp]:
  "body_rows (swap_columns s t tb) = map (swap_cells s t) (body_rows tb)"
  by (cases "tbody tb"; simp add: body_rows_def swap_columns_def)

lemma uniform_swap_columns: "uniform tb \<Longrightarrow> uniform (swap_columns s t tb)"
  by (simp add: uniform_def list_all_iff)

lemma table_handleDrop:
  "editableTable (handleDrop t st) = editableTable st
   \<or> (\<exists>s. editableTable (handleDrop t st) = swap_columns s t (editableTable st))"
  by (auto simp: handleDrop_def handleDrop_around_def swap_block_def Let_def
      split: option.splits)

lemma uniform_handleDrop:
  "uniform (editableTable st) \<Longrightarrow> uniform (editableTable (handleDrop t st))"
  using table_handleDrop [of t st] by (auto simp: uniform_swap_columns)

lemma table_click [simp]: "editableTable (after (click tg st)) = editableTable st"
  by (auto simp: click_def Let_def split: target.splits option.splits)

lemma uniform_handle:
  "uniform (editableTable st) \<Longrightarrow> uniform (editableTable (handle e st))"
  by (cases e)
    (simp_all add: uniform_addRow uniform_addColumn uniform_deleteRow uniform_deleteColumn
      uniform_handleDrop handleDragStart_def handleDragEnd_def toggleMode_def)

text \<open>
  C2. From a table whose body rows all have the header's number of cells, any sequence
  of the structural operations (add or delete a row or a column, a drop that swaps two
  columns), interleaved at will with clicks, mode toggles and drag events, leads to a
  table whose body rows all have the header's number of cells. A sequence of one event
  is one operation: each operation resizes every row it has to.
\<close>

theorem rows_stay_uniform:
  "uniform (editableTable st) \<Longrightarrow> uniform (editableTable (run evs st))"
  by (induction evs arbitrary: st) (simp_all add: uniform_handle)

theorem rows_stay_uniform_witness:
  "uniform (editableTable (new_editor abc_table)) \<and>
   uniform (editableTable (run [AddColumn, AddRow, Click (TH 0), DeleteColumn, Click (TD 1),
      DeleteRow, ToggleMode, DragStart True 0, Drop 2, DeleteColumn, DeleteRow]
      (new_editor abc_table)))"
proof -
  have h: "uniform (editableTable (new_editor abc_table))"
    by (simp add: uniform_def new_editor_def abc_table_def header_length_def body_rows_def)
  show ?thesis by (rule conjI [OF h rows_stay_uniform [OF h]])
qed

section \<open>Mode toggle\<close>

text \<open>
  C5, as the code has it. Whatever the state before, after \<^verbatim>\<open>toggleMode()\<close> no row and
  no column is selected and the mode is flipped; the recorded drag source and the
  \<open>swapInProgress\<close> guard are what they were, and so is the table.
\<close>

theorem toggleMode_clears_selection:
  "selectedRow (toggleMode st) = None \<and> selectedColumn (toggleMode st) = None
   \<and> isDragMode (toggleMode st) = (\<not> isDragMode st)
   \<and> draggedSrcColIndex (toggleMode st) = draggedSrcColIndex st
   \<and> swapInProgress (toggleMode st) = swapInProgress st
   \<and> editableTable (toggleMode st) = editableTable st"
  by (simp add: toggleMode_def clearSelections_def)

text \<open>A drag source recorded before the toggle is still recorded after it.\<close>

theorem toggleMode_keeps_drag_source:
  "draggedSrcColIndex (toggleMode dragging) \<noteq> None"
  by (simp add: toggleMode_def clearSelections_def dragging_def new_editor_def)

section \<open>Drop\<close>

lemma handleDrop_around_flag:
  "\<not> swapInProgress st \<Longrightarrow> \<not> swapInProgress (handleDrop_around block t st)"
  by (simp add: handleDrop_around_def Let_def split: option.splits)

lemma handleDrop_swaps:
  "isDragMode st \<Longrightarrow> \<not> swapInProgress st \<Longrightarrow> draggedSrcColIndex st = Some s \<Longrightarrow> t \<noteq> s \<Longrightarrow>
   handleDrop t st =
     st\<lparr>editableTable := swap_columns s t (editableTable st),
        markdownInput := tableToMarkdown (swap_columns s t (editableTable st)),
        draggedSrcColIndex := None\<rparr>"
  by (simp add: handleDrop_def handleDrop_around_def swap_block_def updateMarkdown_def Let_def)

lemma handleDrop_no_source:
  "draggedSrcColIndex st = None \<Longrightarrow> handleDrop t st = st"
  by (simp add: handleDrop_def handleDrop_around_def)

lemma handleDrop_twice: "handleDrop t (handleDrop t st) = handleDrop t st"
proof (cases "isDragMode st \<and> \<not> swapInProgress st \<and> draggedSrcColIndex st \<noteq> None
    \<and> draggedSrcColIndex st \<noteq> Some t")
  case True
  then obtain s where s: "draggedSrcColIndex st = Some s" "t \<noteq> s" by auto
  with True have "draggedSrcColIndex (handleDrop t st) = None"
    by (simp add: handleDrop_swaps)
  then show ?thesis by (rule handleDrop_no_source)
next
  case False
  then have "handleDrop t st = st"
    by (auto simp: handleDrop_def handleDrop_around_def split: option.splits)
  then show ?thesis by simp
qed

lemma swap_cells_same [simp]: "swap_cells s s cells = cells"
  by (simp add: swap_cells_def)

lemma swap_columns_same: "swap_columns s s tb = tb"
proof -
  have "swap_cells s s = id" by (rule ext) simp
  then show ?thesis by (simp add: swap_columns_def option.map_id0 list.map_id0)
qed

lemma handleDrop_same_target: "draggedSrcColIndex st = Some t \<Longrightarrow> handleDrop t st = st"
  by (simp add: handleDrop_def handleDrop_around_def)

lemma guard_updateMarkdown [simp]: "swapInProgress (updateMarkdown st) = swapInProgress st"
  by (simp add: updateMarkdown_def)

lemma guard_clearSelections [simp]: "swapInProgress (clearSelections st) = swapInProgress st"
  by (simp add: clearSelections_def)

lemma guard_addRow: "swapInProgress (addRow st) = swapInProgress st"
  by (simp add: addRow_def Let_def split: option.splits)

lemma guard_addColumn: "swapInProgress (after (addColumn st)) = swapInProgress st"
  by (simp del: digits.simps add: addColumn_def Let_def split: option.splits)

lemma guard_deleteRow: "swapInProgress (deleteRow st) = swapInProgress st"
  by (simp add: deleteRow_def split: option.splits bool.splits)

lemma guard_deleteColumn: "swapInProgress (after (deleteColumn st)) = swapInProgress st"
  by (simp add: deleteColumn_def split: option.splits bool.splits)

lemma guard_click: "swapInProgress (after (click tg st)) = swapInProgress st"
  by (simp add: click_def Let_def split: target.splits option.splits)

lemma guard_handle: "\<not> swapInProgress st \<Longrightarrow> \<not> swapInProgress (handle e st)"
  by (cases e)
    (simp_all add: guard_addRow guard_addColumn guard_deleteRow guard_deleteColumn guard_click
      handleDrop_def handleDrop_around_flag handleDragStart_def handleDragEnd_def toggleMode_def)

lemma guard_clear_between_events: "\<not> swapInProgress st \<Longrightarrow> \<not> swapInProgress (run evs st)"
  by (induction evs arbitrary: st) (simp_all add: guard_handle)

text \<open>
  C6. A second \<^verbatim>\<open>drop\<close> on the same target, right after the first, changes nothing,
  in every state. Where a drag is under way (drag mode, guard clear, a source \<open>s\<close>
  recorded), the table after the two drops on \<open>t\<close> is the table with the contents of
  columns \<open>s\<close> and \<open>t\<close> swapped once. The guard \<open>swapInProgress\<close>, clear when the
  handler is entered (as it is between any two events), is clear when the handler is
  left, whatever the \<^verbatim>\<open>try\<close> block does, throwing or not.
\<close>

theorem drop_applies_once:
  "handleDrop t (handleDrop t st) = handleDrop t st
   \<and> (isDragMode st \<and> \<not> swapInProgress st \<and> draggedSrcColIndex st = Some s \<longrightarrow>
      editableTable (handleDrop t st) = swap_columns s t (editableTable st)
      \<and> editableTable (handleDrop t (handleDrop t st)) = swap_columns s t (editableTable st))
   \<and> (\<not> swapInProgress st \<longrightarrow> \<not> swapInProgress (handleDrop_around block t st))"
proof (cases "t = s")
  case True
  then show ?thesis
    by (simp add: handleDrop_twice handleDrop_around_flag handleDrop_same_target
        swap_columns_same)
next
  case False
  then show ?thesis
    by (simp add: handleDrop_twice handleDrop_around_flag handleDrop_swaps handleDrop_no_source)
qed

theorem drop_applies_once_witness:
  "isDragMode dragging \<and> \<not> swapInProgress dragging \<and> draggedSrcColIndex dragging = Some 0
   \<and> editableTable (handleDrop 2 (handleDrop 2 dragging)) =
       \<lparr>thead = Some (Some [''C'', ''B'', ''A'']),
        tbody = Some [[''3'', ''2'', ''1''], [''6'', ''5'', ''4'']]\<rparr>
   \<and> handleDrop 2 (handleDrop 2 dragging) = handleDrop 2 dragging
   \<and> \<not> swapInProgress (handleDrop_around (\<lambda>s t st. Threw st) 2 dragging)"
proof -
  have h: "isDragMode dragging \<and> \<not> swapInProgress dragging
      \<and> draggedSrcColIndex dragging = Some 0"
    by (simp add: dragging_def new_editor_def)
  have t: "swap_columns 0 2 (editableTable dragging) =
       \<lparr>thead = Some (Some [''C'', ''B'', ''A'']),
        tbody = Some [[''3'', ''2'', ''1''], [''6'', ''5'', ''4'']]\<rparr>"
    by (simp add: dragging_def new_editor_def abc_table_def swap_columns_def swap_cells_def)
  show ?thesis
    using h t drop_applies_once [of 2 dragging 0 "\<lambda>s t st. Threw st"] by simp
qed

text \<open>
  C10. In a drop that swaps (drag mode, guard clear, source \<open>s\<close> recorded, target \<open>t\<close>
  other than \<open>s\<close>) the \<^verbatim>\<open>try\<close> block does not throw, and the header row and every body
  row are treated one by one by \<open>swap_cells\<close>: a row with cells at both \<open>s\<close> and \<open>t\<close>
  keeps its length, has the two contents exchanged and every other cell as before; a row
  without a cell at \<open>s\<close> or at \<open>t\<close> is unchanged. Nothing is asked of the rows' lengths.
\<close>

theorem drop_swaps_row_by_row:
  "isDragMode st \<and> \<not> swapInProgress st \<and> draggedSrcColIndex st = Some s \<and> t \<noteq> s \<longrightarrow>
     \<not> threw (swap_block s t (st\<lparr>swapInProgress := True\<rparr>))
     \<and> thead (editableTable (handleDrop t st))
         = map_option (map_option (swap_cells s t)) (thead (editableTable st))
     \<and> tbody (editableTable (handleDrop t st))
         = map_option (map (swap_cells s t)) (tbody (editableTable st))
     \<and> (s < length cells \<and> t < length cells \<longrightarrow>
          length (swap_cells s t cells) = length cells
          \<and> swap_cells s t cells ! s = cells ! t \<and> swap_cells s t cells ! t = cells ! s
          \<and> (i \<noteq> s \<and> i \<noteq> t \<longrightarrow> swap_cells s t cells ! i = cells ! i))
     \<and> (\<not> (s < length cells \<and> t < length cells) \<longrightarrow> swap_cells s t cells = cells)"
  by (auto simp: handleDrop_swaps swap_block_def swap_columns_def swap_cells_def)

theorem drop_swaps_row_by_row_witness:
  "isDragMode dragging_ragged \<and> \<not> swapInProgress dragging_ragged
   \<and> draggedSrcColIndex dragging_ragged = Some 0 \<and> (2::nat) \<noteq> 0
   \<and> editableTable (handleDrop 2 dragging_ragged) =
       \<lparr>thead = Some (Some [''C'', ''B'', ''A'']),
        tbody = Some [[''1''], [''6'', ''5'', ''4'']]\<rparr>"
proof -
  have h: "isDragMode dragging_ragged \<and> \<not> swapInProgress dragging_ragged
     \<and> draggedSrcColIndex dragging_ragged = Some 0 \<and> (2::nat) \<noteq> 0"
    by (simp add: dragging_ragged_def new_editor_def)
  have "thead (editableTable (handleDrop 2 dragging_ragged))
         = map_option (map_option (swap_cells 0 2)) (thead (editableTable dragging_ragged))
     \<and> tbody (editableTable (handleDrop 2 dragging_ragged))
         = map_option (map (swap_cells 0 2)) (tbody (editableTable dragging_ragged))"
    using h drop_swaps_row_by_row [of dragging_ragged 0 2] by blast
  then have "thead (editableTable (handleDrop 2 dragging_ragged))
       = Some (Some [''C'', ''B'', ''A''])
     \<and> tbody (editableTable (handleDrop 2 dragging_ragged))
       = Some [[''1''], [''6'', ''5'', ''4'']]"
    by (simp add: dragging_ragged_def new_editor_def ragged_table_def swap_cells_def)
  then have "editableTable (handleDrop 2 dragging_ragged) =
       \<lparr>thead = Some (Some [''C'', ''B'', ''A'']),
        tbody = Some [[''1''], [''6'', ''5'', ''4'']]\<rparr>"
    by (cases "editableTable (handleDrop 2 dragging_ragged)") simp
  with h show ?thesis by blast
qed

section \<open>Deleting with a selection\<close>

text \<open>
  C7. On a table whose header has exactly one cell, \<^verbatim>\<open>deleteColumn()\<close> returns at once
  and leaves the whole editor, the table with it, as it was: with a column selected and
  without, in either mode.
\<close>

theorem deleteColumn_single_column:
  "thead (editableTable st) = Some (Some [c]) \<Longrightarrow> deleteColumn st = Done st"
  by (simp add: deleteColumn_def split: option.splits bool.splits)

theorem deleteColumn_single_column_witness:
  "thead (editableTable ((new_editor one_column_table)\<lparr>selectedColumn := Some 0\<rparr>))
     = Some (Some [''A''])
   \<and> deleteColumn ((new_editor one_column_table)\<lparr>selectedColumn := Some 0\<rparr>)
       = Done ((new_editor one_column_table)\<lparr>selectedColumn := Some 0\<rparr>)
   \<and> thead (editableTable (new_editor one_column_table)) = Some (Some [''A''])
   \<and> deleteColumn (new_editor one_column_table) = Done (new_editor one_column_table)"
proof -
  have h1: "thead (editableTable ((new_editor one_column_table)\<lparr>selectedColumn := Some 0\<rparr>))
      = Some (Some [''A''])"
    by (simp add: new_editor_def one_column_table_def)
  have h2: "thead (editableTable (new_editor one_column_table)) = Some (Some [''A''])"
    by (simp add: new_editor_def one_column_table_def)
  show ?thesis
    using h1 h2 deleteColumn_single_column [OF h1] deleteColumn_single_column [OF h2]
    by blast
qed

text \<open>
  C8, as the code has it. In edit mode, \<^verbatim>\<open>deleteRow()\<close> with a selected row whose index
  is out of range of the body, and \<^verbatim>\<open>deleteColumn()\<close> on a table with a header row and
  a selected column whose index is out of range of the header, return without a throw
  and leave the whole editor as it was: the table is unchanged and the stale selection
  stays selected.
\<close>

theorem stale_selection_kept:
  "(tbody (editableTable st) = Some rows \<and> selectedRow st = Some r \<and> \<not> isDragMode st
      \<and> \<not> in_range (r - 1) rows \<longrightarrow> deleteRow st = st)
   \<and> (thead (editableTable st) = Some (Some headerCells) \<and> selectedColumn st = Some c
      \<and> \<not> isDragMode st \<and> \<not> c < length headerCells \<longrightarrow> deleteColumn st = Done st)"
  by (simp add: deleteRow_def deleteColumn_def split: option.splits)

theorem stale_selection_kept_witness:
  "tbody (editableTable stale_row) = Some [[''1'', ''2'', ''3''], [''4'', ''5'', ''6'']]
   \<and> selectedRow stale_row = Some 5 \<and> \<not> isDragMode stale_row
   \<and> \<not> in_range (5 - 1) [[''1'', ''2'', ''3''], [''4'', ''5'', ''6'']]
   \<and> deleteRow stale_row = stale_row
   \<and> thead (editableTable stale_column) = Some (Some [''A'', ''B'', ''C''])
   \<and> selectedColumn stale_column = Some 7 \<and> \<not> isDragMode stale_column
   \<and> \<not> 7 < length [''A'', ''B'', ''C'']
   \<and> deleteColumn stale_column = Done stale_column"
proof -
  have r: "tbody (editableTable stale_row) = Some [[''1'', ''2'', ''3''], [''4'', ''5'', ''6'']]
     \<and> selectedRow stale_row = Some 5 \<and> \<not> isDragMode stale_row
     \<and> \<not> in_range (5 - 1) [[''1'', ''2'', ''3''], [''4'', ''5'', ''6'']]"
    by (simp add: stale_row_def new_editor_def abc_table_def in_range_def)
  have c: "thead (editableTable stale_column) = Some (Some [''A'', ''B'', ''C''])
     \<and> selectedColumn stale_column = Some 7 \<and> \<not> isDragMode stale_column
     \<and> \<not> 7 < length [''A'', ''B'', ''C'']"
    by (simp add: stale_column_def new_editor_def abc_table_def)
  from r have "deleteRow stale_row = stale_row"
    using stale_selection_kept [where st = stale_row and r = 5
        and rows = "[[''1'', ''2'', ''3''], [''4'', ''5'', ''6'']]"]
    by blast
  moreover from c have "deleteColumn stale_column = Done stale_column"
    using stale_selection_kept [where st = stale_column and c = 7
        and headerCells = "[''A'', ''B'', ''C'']"]
    by blast
  ultimately show ?thesis using r c by blast
qed

text \<open>
  A selected row whose index is out of range is still selected after \<^verbatim>\<open>deleteRow()\<close>.
\<close>

theorem stale_row_not_cleared:
  "editableTable (deleteRow stale_row) = editableTable stale_row
   \<and> selectedRow (deleteRow stale_row) \<noteq> None"
  by (simp add: stale_row_def new_editor_def abc_table_def deleteRow_def in_range_def)

text \<open>
  Without a header row, as \<^verbatim>\<open>clearTable\<close> leaves the table, \<^verbatim>\<open>deleteColumn()\<close> throws
  and changes nothing; \<^verbatim>\<open>addRow()\<close>, which tests the header row first, returns.
\<close>

lemma deleteColumn_throws_without_header:
  "deleteColumn (clearTable st) = Threw (clearTable st)
   \<and> addRow (clearTable st) = clearTable st"
  by (simp add: deleteColumn_def addRow_def clearTable_def)

section \<open>Click\<close>

text \<open>
  C9, as the code has it. In edit mode a click on a cell of body row \<open>k\<close> (counted from
  0 among the body rows) leaves no column selected and stores \<open>k + 1\<close> in
  \<open>selectedRow\<close>: the row's index with the header counted as row 0. A \<^verbatim>\<open>deleteRow()\<close>
  that follows removes body row \<open>k\<close>. A click of any kind, in either mode, on an editor
  where a row and a column are not both selected leaves one where they are not both
  selected; in edit mode, on a table that has a body, a click on a body cell, on a header
  cell or outside every cell leaves such an editor whatever was selected before.
\<close>

theorem click_selects_row:
  "(\<not> isDragMode st \<and> tbody (editableTable st) = Some rows \<and> k < length rows \<longrightarrow>
      click (TD k) st = Done (st\<lparr>selectedRow := Some (int k + 1), selectedColumn := None\<rparr>)
      \<and> tbody (editableTable (deleteRow (after (click (TD k) st)))) = Some (remove_nth k rows))
   \<and> (selectedRow st = None \<or> selectedColumn st = None \<longrightarrow>
      selectedRow (after (click tg st)) = None \<or> selectedColumn (after (click tg st)) = None)
   \<and> (\<not> isDragMode st \<and> tbody (editableTable st) \<noteq> None \<and> tg \<noteq> Other True \<longrightarrow>
      selectedRow (after (click tg st)) = None \<or> selectedColumn (after (click tg st)) = None)"
  by (auto simp: click_def clearSelections_def deleteRow_def in_range_def updateMarkdown_def
      Let_def split: target.splits option.splits)

theorem click_selects_row_witness:
  "\<not> isDragMode ((new_editor abc_table)\<lparr>selectedColumn := Some 2\<rparr>)
   \<and> tbody (editableTable ((new_editor abc_table)\<lparr>selectedColumn := Some 2\<rparr>))
       = Some [[''1'', ''2'', ''3''], [''4'', ''5'', ''6'']]
   \<and> (1::nat) < length [[''1'', ''2'', ''3''], [''4'', ''5'', ''6'']]
   \<and> click (TD 1) ((new_editor abc_table)\<lparr>selectedColumn := Some 2\<rparr>)
       = Done ((new_editor abc_table)\<lparr>selectedRow := Some 2, selectedColumn := None\<rparr>)
   \<and> tbody (editableTable (deleteRow (after (click (TD 1)
         ((new_editor abc_table)\<lparr>selectedColumn := Some 2\<rparr>))))) = Some [[''1'', ''2'', ''3'']]"
proof -
  let ?st = "(new_editor abc_table)\<lparr>selectedColumn := Some 2\<rparr>"
  let ?rows = "[[''1'', ''2'', ''3''], [''4'', ''5'', ''6'']]"
  have h: "\<not> isDragMode ?st \<and> tbody (editableTable ?st) = Some ?rows
      \<and> (1::nat) < length ?rows"
    by (simp add: new_editor_def abc_table_def)
  have e1: "?st\<lparr>selectedRow := Some (int 1 + 1), selectedColumn := None\<rparr>
      = (new_editor abc_table)\<lparr>selectedRow := Some 2, selectedColumn := None\<rparr>"
    by (simp add: new_editor_def)
  have e2: "remove_nth 1 ?rows = [[''1'', ''2'', ''3'']]"
    by (simp add: remove_nth_def)
  have a: "click (TD 1) ?st
        = Done (?st\<lparr>selectedRow := Some (int 1 + 1), selectedColumn := None\<rparr>)
      \<and> tbody (editableTable (deleteRow (after (click (TD 1) ?st))))
        = Some (remove_nth 1 ?rows)"
    using h click_selects_row [of ?st ?rows 1] by blast
  show ?thesis using h a [unfolded e1 e2] by blast
qed

text \<open>
  The first body row is clicked: what is stored is 1, not the row's index 0 among the
  body rows.
\<close>

theorem click_stores_one_based:
  "selectedRow (after (click (TD 0) (new_editor abc_table))) \<noteq> Some 0"
  by (simp add: click_def new_editor_def abc_table_def clearSelections_def)

section \<open>The parser as a filter\<close>

lemma is_space_simps [simp]:
  "is_space (CHR '' '')" "is_space newline" "\<not> is_space pipe"
  by (simp_all add: is_space_def)

lemma sep_char_simps [simp]: "sep_char (CHR '' '')" "sep_char pipe" "sep_char (CHR ''-'')"
  by (simp_all add: sep_char_def)

lemma all_sep_chars_iff: "all_sep_chars s = (\<forall>c\<in>set s. sep_char c)"
  by (induction s) auto

text \<open>
  The matcher \<open>is_separator\<close> accepts the language of the pattern
  \<^verbatim>\<open>^\s*\|[\s\-\|:]+\|\s*$\<close>: white space, a pipe, one character or more of the class,
  a pipe, white space.
\<close>

lemma is_separator_pattern:
  "is_separator line \<longleftrightarrow>
     (\<exists>a m b. line = a @ pipe # m @ pipe # b
        \<and> (\<forall>c\<in>set a. is_space c) \<and> m \<noteq> [] \<and> (\<forall>c\<in>set m. sep_char c)
        \<and> (\<forall>c\<in>set b. is_space c))"
proof
  assume "is_separator line"
  then obtain r m' where r: "dropWhile is_space line = pipe # r"
    and m: "dropWhile is_space (rev r) = pipe # m'" "m' \<noteq> []" "all_sep_chars m'"
    by (auto simp: is_separator_def split: list.splits)
  have "line = takeWhile is_space line @ dropWhile is_space line" by simp
  with r have l: "line = takeWhile is_space line @ pipe # r" by simp
  have "rev r = takeWhile is_space (rev r) @ dropWhile is_space (rev r)" by simp
  with m(1) have "rev r = takeWhile is_space (rev r) @ pipe # m'" by simp
  then have "rev (rev r) = rev (takeWhile is_space (rev r) @ pipe # m')" by (rule arg_cong)
  then have "r = rev m' @ pipe # rev (takeWhile is_space (rev r))" by simp
  with l have "line = takeWhile is_space line @ pipe # rev m' @ pipe # rev (takeWhile is_space (rev r))"
    by simp
  moreover have "\<forall>c\<in>set (takeWhile is_space line). is_space c"
    by (auto dest: set_takeWhileD)
  moreover have "\<forall>c\<in>set (rev (takeWhile is_space (rev r))). is_space c"
    by (auto dest: set_takeWhileD)
  moreover from m have "rev m' \<noteq> []" "\<forall>c\<in>set (rev m'). sep_char c"
    by (simp_all add: all_sep_chars_iff)
  ultimately show "\<exists>a m b. line = a @ pipe # m @ pipe # b
        \<and> (\<forall>c\<in>set a. is_space c) \<and> m \<noteq> [] \<and> (\<forall>c\<in>set m. sep_char c)
        \<and> (\<forall>c\<in>set b. is_space c)"
    by blast
next
  assume "\<exists>a m b. line = a @ pipe # m @ pipe # b
        \<and> (\<forall>c\<in>set a. is_space c) \<and> m \<noteq> [] \<and> (\<forall>c\<in>set m. sep_char c)
        \<and> (\<forall>c\<in>set b. is_space c)"
  then obtain a m b where l: "line = a @ pipe # m @ pipe # b"
    and a: "\<forall>c\<in>set a. is_space c" and m: "m \<noteq> []" "\<forall>c\<in>set m. sep_char c"
    and b: "\<forall>c\<in>set b. is_space c"
    by blast
  from a have d1: "dropWhile is_space line = pipe # m @ pipe # b"
    by (simp add: l)
  have "dropWhile is_space (rev b @ pipe # rev m) = dropWhile is_space (pipe # rev m)"
    using b by (intro dropWhile_append2) simp
  then have d2: "dropWhile is_space (rev (m @ pipe # b)) = pipe # rev m" by simp
  from m have "rev m \<noteq> []" "all_sep_chars (rev m)" by (simp_all add: all_sep_chars_iff)
  with d1 d2 show "is_separator line" by (simp add: is_separator_def)
qed

lemma parse_lines_filter:
  "parse_lines i ls rows =
     rows @ map (\<lambda>p. line_cells (trim (snd p))) (filter retained (enumerate i ls))"
proof (induction ls arbitrary: i rows)
  case Nil
  show ?case by simp
next
  case (Cons l ls)
  show ?case by (simp add: Cons.IH retained_def table_line_def Let_def)
qed

lemma markdownToTable_filter:
  "markdownToTable md =
     (if length (split_on newline (trim md)) < 2
         \<or> retained_rows (split_on newline (trim md)) = []
      then None
      else Some (retained_rows (split_on newline (trim md))))"
  by (simp add: markdownToTable_def Let_def parse_lines_filter retained_rows_def)

lemma separator_has_pipe:
  assumes "is_separator l"
  shows "pipe \<in> set l"
proof -
  from assms obtain r where "dropWhile is_space l = pipe # r"
    by (auto simp: is_separator_def split: list.splits)
  then have "pipe \<in> set (dropWhile is_space l)" by simp
  then show ?thesis by (rule set_dropWhileD)
qed

text \<open>
  C3, as the code has it. The lines are those of the input trimmed as a whole
  (\<^verbatim>\<open>markdown.trim().split('\n')\<close>), and their indices are counted there. The rows of
  \<^verbatim>\<open>markdownToTable\<close> are the cells of the retained lines, in order, and a line is
  retained when it is a table line (not blank, with a pipe) that is not a separator at
  index 1. So a line at index 1 that matches the separator's pattern
  \<^verbatim>\<open>^\s*\|[\s\-\|:]+\|\s*$\<close> is a table line and is dropped; a table line at index 1
  that does not match is kept as a row; and a table line at any other index is kept as a
  row, matching or not.
\<close>

theorem separator_only_at_index_one:
  "parse_lines 0 ls [] = retained_rows ls
   \<and> markdownToTable md =
     (if length (split_on newline (trim md)) < 2
         \<or> retained_rows (split_on newline (trim md)) = []
      then None
      else Some (retained_rows (split_on newline (trim md))))
   \<and> (is_separator (trim l) \<longrightarrow> table_line l \<and> \<not> retained (1, l))
   \<and> (table_line l \<and> \<not> is_separator (trim l) \<longrightarrow> retained (1, l))
   \<and> (table_line l \<and> i \<noteq> 1 \<longrightarrow> retained (i, l))"
proof -
  have "is_separator (trim l) \<longrightarrow> table_line l"
    using separator_has_pipe [of "trim l"] by (auto simp: table_line_def)
  then show ?thesis
    using markdownToTable_filter [of md]
    by (simp add: parse_lines_filter retained_rows_def retained_def)
qed

theorem separator_only_at_index_one_witness:
  "table_line ''| not-a-separator |'' \<and> \<not> is_separator (trim ''| not-a-separator |'')
   \<and> retained (1, ''| not-a-separator |'')
   \<and> table_line ''|:--|--:|'' \<and> (2::nat) \<noteq> 1 \<and> retained (2, ''|:--|--:|'')
   \<and> is_separator (trim ''|:--|--:|'') \<and> \<not> retained (1, ''|:--|--:|'')
   \<and> markdownToTable lenient_markdown
       = Some [[''A'', ''B''], [''not-a-separator''], ['':--'', ''--:'']]"
proof -
  have a: "table_line ''| not-a-separator |'' \<and> \<not> is_separator (trim ''| not-a-separator |'')"
    by (simp add: table_line_def trim_def is_space_def is_separator_def sep_char_def)
  have b: "table_line ''|:--|--:|'' \<and> (2::nat) \<noteq> 1"
    by (simp add: table_line_def trim_def is_space_def)
  have c: "is_separator (trim ''|:--|--:|'')"
    by (simp add: trim_def is_space_def is_separator_def sep_char_def)
  have r: "retained_rows (split_on newline (trim lenient_markdown))
      = [[''A'', ''B''], [''not-a-separator''], ['':--'', ''--:'']]"
    by (simp add: lenient_markdown_def retained_rows_def retained_def table_line_def trim_def
        is_space_def is_separator_def sep_char_def line_cells_def shift_empty_def pop_empty_def
        enumerate_eq_zip)
  have n: "\<not> length (split_on newline (trim lenient_markdown)) < 2"
    by (simp add: lenient_markdown_def trim_def is_space_def)
  have "markdownToTable lenient_markdown
       = Some [[''A'', ''B''], [''not-a-separator''], ['':--'', ''--:'']]"
    using separator_only_at_index_one [of _ lenient_markdown] n by (simp add: r)
  then show ?thesis
    using a b c separator_only_at_index_one [of "[]" "[]" "''| not-a-separator |''" 1]
      separator_only_at_index_one [of "[]" "[]" "''|:--|--:|''" 2]
      separator_only_at_index_one [of "[]" "[]" "''|:--|--:|''" 1]
    by blast
qed

text \<open>
  With the indices counted in the input as it is given, a line feed before the table
  moves every line by one: in the first input the separator at index 2 of the given
  lines is dropped, in the second the matching line at index 1 of the given lines is
  kept as a row.
\<close>

theorem separator_index_counterexample:
  "split_on newline shifted_markdown = ['''', ''| A |'', ''|---|'', ''| 1 |'']
   \<and> is_separator (trim ''|---|'')
   \<and> markdownToTable shifted_markdown = Some [[''A''], [''1'']]
   \<and> markdownToTable shifted_markdown
       \<noteq> Some (retained_rows (split_on newline shifted_markdown))
   \<and> split_on newline leading_separator_markdown = ['''', ''|---|'', ''| 1 |'']
   \<and> markdownToTable leading_separator_markdown = Some [[''---''], [''1'']]
   \<and> markdownToTable leading_separator_markdown
       \<noteq> Some (retained_rows (split_on newline leading_separator_markdown))"
  by (simp add: shifted_markdown_def leading_separator_markdown_def
      retained_rows_def retained_def table_line_def trim_def is_space_def is_separator_def
      sep_char_def line_cells_def shift_empty_def pop_empty_def enumerate_eq_zip
      markdownToTable_def)

text \<open>
  C4, as the code has it. \<^verbatim>\<open>markdownToTable\<close> returns \<^verbatim>\<open>null\<close> exactly when the
  input, trimmed as a whole and then split at line feeds, has fewer than two lines, or
  when none of these lines is retained. Where \<^verbatim>\<open>parseMarkdown\<close> gets \<^verbatim>\<open>null\<close> from it
  (the text area is not blank, so that it is called), the editor is left as it was, the
  table with it.
\<close>

theorem null_exactly_when_no_rows:
  "(markdownToTable md = None \<longleftrightarrow>
      length (split_on newline (trim md)) < 2
      \<or> filter retained (enumerate 0 (split_on newline (trim md))) = [])
   \<and> (trim (markdownInput st) \<noteq> [] \<and> markdownToTable (markdownInput st) = None
        \<longrightarrow> parseMarkdown st = st)"
  by (simp add: markdownToTable_filter retained_rows_def parseMarkdown_def Let_def)

theorem null_exactly_when_no_rows_witness:
  "trim (markdownInput one_line_editor) \<noteq> []
   \<and> markdownToTable (markdownInput one_line_editor) = None
   \<and> parseMarkdown one_line_editor = one_line_editor
   \<and> markdownToTable (''intro'' @ [newline] @ ''|---|'') = None"
proof -
  have a: "trim (markdownInput one_line_editor) \<noteq> []"
    by (simp add: one_line_editor_def new_editor_def trim_def is_space_def)
  have "length (split_on newline (trim (markdownInput one_line_editor))) < 2"
    by (simp add: one_line_editor_def new_editor_def trim_def is_space_def)
  then have b: "markdownToTable (markdownInput one_line_editor) = None"
    using null_exactly_when_no_rows [of "markdownInput one_line_editor"] by blast
  have "filter retained (enumerate 0 (split_on newline (trim (''intro'' @ [newline] @ ''|---|'')))) = []"
    by (simp add: retained_def table_line_def trim_def is_space_def is_separator_def sep_char_def
        enumerate_eq_zip)
  then have c: "markdownToTable (''intro'' @ [newline] @ ''|---|'') = None"
    using null_exactly_when_no_rows [of "''intro'' @ [newline] @ ''|---|''"] by blast
  show ?thesis using a b c null_exactly_when_no_rows [of _ one_line_editor] by blast
qed

text \<open>
  An input of three lines as it is given, the first of which is retained: the two blank
  lines at its end are trimmed away before the lines are counted, and the result is
  \<^verbatim>\<open>null\<close>.
\<close>

theorem null_raw_lines_counterexample:
  "split_on newline trailing_blank_markdown = [''| A | B |'', '''', '''']
   \<and> \<not> length (split_on newline trailing_blank_markdown) < 2
   \<and> retained_rows (split_on newline trailing_blank_markdown) = [[''A'', ''B'']]
   \<and> markdownToTable trailing_blank_markdown = None"
  by (simp add: trailing_blank_markdown_def
      retained_rows_def retained_def table_line_def trim_def is_space_def is_separator_def
      sep_char_def line_cells_def shift_empty_def pop_empty_def enumerate_eq_zip
      markdownToTable_def)

section \<open>From table to markdown and back\<close>

lemma split_on_append: "c \<notin> set xs \<Longrightarrow> split_on c (xs @ c # ys) = xs # split_on c ys"
  by (induction xs) auto

lemma split_on_none: "c \<notin> set xs \<Longrightarrow> split_on c xs = [xs]"
  by (induction xs) auto

lemma trim_Nil [simp]: "trim [] = []"
  by (simp add: trim_def)

lemma trim_snoc_space: "is_space s \<Longrightarrow> trim (c @ [s]) = trim c"
proof (cases "\<forall>x\<in>set c. is_space x")
  case True
  assume s: "is_space s"
  from True have "dropWhile is_space c = []" by simp
  moreover from True s have "\<forall>x\<in>set (c @ [s]). is_space x" by simp
  then have "dropWhile is_space (c @ [s]) = []" by (simp only: dropWhile_eq_Nil_conv)
  ultimately show ?thesis by (simp only: trim_def)
next
  case False
  assume s: "is_space s"
  from False obtain x where "x \<in> set c" "\<not> is_space x" by blast
  then have "dropWhile is_space (c @ [s]) = dropWhile is_space c @ [s]"
    by (rule dropWhile_append1)
  with s show ?thesis by (simp add: trim_def)
qed

lemma trim_Cons_space: "is_space s \<Longrightarrow> trim (s # c) = trim c"
  by (simp add: trim_def)

lemma trim_pad: "trim (CHR '' '' # c @ '' '') = trim c"
  using trim_snoc_space [of "CHR '' ''" "CHR '' '' # c"] by (simp add: trim_Cons_space)

lemma trim_framed: "framed l \<Longrightarrow> trim l = l"
proof -
  assume f: "framed l"
  then obtain x xs where l: "l = x # xs" "x = pipe" by (cases l) (auto simp: framed_def)
  from f have "rev l \<noteq> []" "hd (rev l) = pipe" by (auto simp: framed_def hd_rev)
  then obtain ys where r: "rev l = pipe # ys" by (cases "rev l") auto
  have "dropWhile is_space l = l" using l by simp
  moreover have "dropWhile is_space (rev l) = rev l" using r by simp
  ultimately show ?thesis by (simp add: trim_def)
qed

lemma trim_text: "framed T \<Longrightarrow> trim (T @ [newline]) = T"
  by (simp add: trim_snoc_space trim_framed)

lemma row_text_padded: "cells \<noteq> [] \<Longrightarrow> row_text cells = pipe # concat (map padded cells)"
  by (induction cells rule: induct_list012) (simp_all add: row_text_def padded_def)

lemma framed_row_text: "framed (row_text cells)"
  by (simp add: framed_def row_text_def)

lemma split_on_padded:
  "\<forall>c\<in>set cells. pipe \<notin> set c \<Longrightarrow>
   split_on pipe (concat (map padded cells)) = map (\<lambda>c. CHR '' '' # c @ '' '') cells @ [[]]"
proof (induction cells)
  case Nil
  show ?case by simp
next
  case (Cons c cells)
  have e: "padded c @ concat (map padded cells)
      = (CHR '' '' # c @ '' '') @ pipe # concat (map padded cells)"
    by (simp add: padded_def)
  have "pipe \<notin> set (CHR '' '' # c @ '' '')" using Cons.prems by simp
  then have "split_on pipe ((CHR '' '' # c @ '' '') @ pipe # concat (map padded cells))
      = (CHR '' '' # c @ '' '') # split_on pipe (concat (map padded cells))"
    by (rule split_on_append)
  with e have "split_on pipe (padded c @ concat (map padded cells))
      = (CHR '' '' # c @ '' '') # split_on pipe (concat (map padded cells))"
    by (simp only:)
  with Cons show ?case by simp
qed

lemma line_cells_row_text:
  assumes "cells \<noteq> []" "\<forall>c\<in>set cells. pipe \<notin> set c"
  shows "line_cells (row_text cells) = map trim cells"
proof -
  have "split_on pipe (row_text cells) = [] # map (\<lambda>c. CHR '' '' # c @ '' '') cells @ [[]]"
    using assms by (simp add: row_text_padded split_on_padded)
  then have "map trim (split_on pipe (row_text cells)) = [] # map trim cells @ [[]]"
    by (simp add: trim_pad)
  then show ?thesis by (simp add: line_cells_def shift_empty_def pop_empty_def)
qed

lemma set_join: "set (join sep xs) \<subseteq> set sep \<union> (\<Union>x\<in>set xs. set x)"
  by (induction xs rule: induct_list012) auto

lemma join_all:
  "\<forall>c\<in>set sep. P c \<Longrightarrow> \<forall>x\<in>set xs. \<forall>c\<in>set x. P c \<Longrightarrow> \<forall>c\<in>set (join sep xs). P c"
  using set_join [of sep xs] by blast

lemma is_separator_dashes:
  assumes "cells \<noteq> []"
  shows "is_separator (row_text (map (\<lambda>c. ''---'') cells))"
proof -
  let ?j = "join '' | '' (map (\<lambda>c. ''---'') cells)"
  have "\<forall>c\<in>set ?j. sep_char c"
    by (rule join_all) simp_all
  then have a: "all_sep_chars (CHR '' '' # rev ?j @ '' '')"
    by (simp add: all_sep_chars_iff)
  have "row_text (map (\<lambda>c. ''---'') cells) = pipe # (CHR '' '' # ?j @ '' '') @ [pipe]"
    by (simp add: row_text_def)
  then show ?thesis using a by (simp add: is_separator_def)
qed

lemma unlines_join: "ls \<noteq> [] \<Longrightarrow> concat (map (\<lambda>l. l @ [newline]) ls) = join [newline] ls @ [newline]"
  by (induction ls rule: induct_list012) simp_all

lemma framed_join:
  "ls \<noteq> [] \<Longrightarrow> \<forall>l\<in>set ls. framed l \<Longrightarrow> framed (join [newline] ls)"
  by (induction ls rule: induct_list012) (auto simp: framed_def)

lemma split_on_join:
  "ls \<noteq> [] \<Longrightarrow> \<forall>l\<in>set ls. newline \<notin> set l \<Longrightarrow> split_on newline (join [newline] ls) = ls"
  by (induction ls rule: induct_list012) (simp_all add: split_on_none split_on_append)

lemma newline_row_text:
  "\<forall>c\<in>set cells. newline \<notin> set c \<Longrightarrow> newline \<notin> set (row_text cells)"
  using join_all [of "'' | ''" "\<lambda>c. c \<noteq> newline" cells]
  by (auto simp: row_text_def)

lemma pipe_row_text: "pipe \<in> set (row_text cells)"
  by (simp add: row_text_def)

lemma parse_lines_body:
  "2 \<le> i \<Longrightarrow> \<forall>r\<in>set body. r \<noteq> [] \<and> (\<forall>c\<in>set r. pipe \<notin> set c) \<Longrightarrow>
   parse_lines i (map row_text body) rows = rows @ map (map trim) body"
proof (induction body arbitrary: i rows)
  case Nil
  show ?case by simp
next
  case (Cons r body)
  have t: "trim (row_text r) = row_text r" by (simp add: trim_framed framed_row_text)
  have n: "row_text r \<noteq> []" using framed_row_text [of r] by (simp add: framed_def)
  have c: "line_cells (row_text r) = map trim r" using Cons.prems by (simp add: line_cells_row_text)
  have "parse_lines i (row_text r # map row_text body) rows
      = parse_lines (Suc i) (map row_text body) (rows @ [map trim r])"
    using Cons.prems(1) t n c by (simp add: pipe_row_text)
  also have "\<dots> = (rows @ [map trim r]) @ map (map trim) body"
    using Cons.prems by (intro Cons.IH) simp_all
  finally show ?case by simp
qed

lemma row_line_text: "row_line cells = row_text cells @ [newline]"
  by (simp add: row_line_def row_text_def)

lemma body_lines_text:
  "\<forall>r\<in>set body. r \<noteq> [] \<Longrightarrow>
   concat (map body_line body) = concat (map (\<lambda>l. l @ [newline]) (map row_text body))"
  by (induction body) (simp_all add: body_line_def row_line_text)

lemma markdown_of_rows:
  assumes "hdr \<noteq> []" "\<forall>r\<in>set body. r \<noteq> []"
  shows "header_lines hdr @ concat (map body_line body)
     = join [newline] (row_text hdr # row_text (map (\<lambda>c. ''---'') hdr) # map row_text body)
       @ [newline]"
proof -
  let ?ls = "row_text hdr # row_text (map (\<lambda>c. ''---'') hdr) # map row_text body"
  have "header_lines hdr @ concat (map body_line body)
      = concat (map (\<lambda>l. l @ [newline]) ?ls)"
    using assms by (simp add: header_lines_def row_line_text body_lines_text)
  also have "\<dots> = join [newline] ?ls @ [newline]"
    by (rule unlines_join) simp
  finally show ?thesis .
qed

lemma parse_rows:
  assumes "hdr \<noteq> []" "\<forall>c\<in>set hdr. pipe \<notin> set c"
    "\<forall>r\<in>set body. r \<noteq> [] \<and> (\<forall>c\<in>set r. pipe \<notin> set c)"
  shows "parse_lines 0 (row_text hdr # row_text (map (\<lambda>c. ''---'') hdr) # map row_text body) []
     = map trim hdr # map (map trim) body"
proof -
  have t: "\<And>r. trim (row_text r) = row_text r" by (simp add: trim_framed framed_row_text)
  have n: "\<And>r. row_text r \<noteq> []" using framed_row_text by (simp add: framed_def)
  have "parse_lines 0 (row_text hdr # row_text (map (\<lambda>c. ''---'') hdr) # map row_text body) []
      = parse_lines (Suc 0) (row_text (map (\<lambda>c. ''---'') hdr) # map row_text body) [map trim hdr]"
    using assms(1,2) by (simp add: t n pipe_row_text line_cells_row_text)
  also have "\<dots> = parse_lines 2 (map row_text body) [map trim hdr]"
    using assms(1) by (simp add: t n pipe_row_text is_separator_dashes numeral_2_eq_2)
  also have "\<dots> = [map trim hdr] @ map (map trim) body"
    using assms(3) by (intro parse_lines_body) simp_all
  finally show ?thesis by simp
qed

lemma roundtrip_rows:
  assumes "hdr \<noteq> []" "\<forall>c\<in>set hdr. plain c"
    "\<forall>r\<in>set body. r \<noteq> [] \<and> (\<forall>c\<in>set r. plain c)"
  shows "markdownToTable (header_lines hdr @ concat (map body_line body))
     = Some (map trim hdr # map (map trim) body)"
proof -
  let ?ls = "row_text hdr # row_text (map (\<lambda>c. ''---'') hdr) # map row_text body"
  have m: "header_lines hdr @ concat (map body_line body) = join [newline] ?ls @ [newline]"
    using assms by (intro markdown_of_rows) simp_all
  have "\<forall>l\<in>set ?ls. framed l" by (auto simp: framed_row_text)
  then have "framed (join [newline] ?ls)" by (intro framed_join) simp_all
  then have t: "trim (join [newline] ?ls @ [newline]) = join [newline] ?ls"
    by (rule trim_text)
  have "newline \<notin> set (row_text (map (\<lambda>c. ''---'') hdr))"
    by (rule newline_row_text) simp
  moreover have "newline \<notin> set (row_text hdr)"
    using assms(2) by (intro newline_row_text) (simp add: plain_def)
  moreover have "\<forall>r\<in>set body. newline \<notin> set (row_text r)"
    using assms(3) by (auto intro!: newline_row_text simp: plain_def)
  ultimately have "\<forall>l\<in>set ?ls. newline \<notin> set l" by simp
  then have s: "split_on newline (join [newline] ?ls) = ?ls"
    by (intro split_on_join) simp_all
  have p: "parse_lines 0 ?ls [] = map trim hdr # map (map trim) body"
    using assms by (intro parse_rows) (simp_all add: plain_def)
  show ?thesis
    by (simp only: m markdownToTable_def t s Let_def p) simp
qed

text \<open>
  C1, as the code has it. For a well-formed table (a header of one cell or more, every
  body row as long as the header) whose cells are all plain (no pipe and no line feed in
  their text), \<^verbatim>\<open>markdownToTable\<close> of \<^verbatim>\<open>tableToMarkdown\<close> is the list of the table's
  rows, header first, each cell trimmed.
\<close>

theorem roundtrip:
  assumes "well_formed t" "list_all (list_all plain) (table_rows t)"
  shows "markdownToTable (tableToMarkdown t) = Some (map (map trim) (table_rows t))"
proof -
  from assms(1) obtain hdr where h: "thead t = Some (Some hdr)" "hdr \<noteq> []"
    by (auto simp: well_formed_def Suc_le_eq split: option.splits)
  define body where "body = (case tbody t of Some rows \<Rightarrow> rows | None \<Rightarrow> [])"
  have r: "table_rows t = hdr # body" by (simp add: table_rows_def h body_def)
  have "\<forall>r\<in>set body. length r = length hdr"
    using assms(1) h by (auto simp: well_formed_def body_def list_all_iff split: option.splits)
  with h(2) have ne: "\<forall>r\<in>set body. r \<noteq> []" by auto
  have pl: "\<forall>c\<in>set hdr. plain c" "\<forall>r\<in>set body. \<forall>c\<in>set r. plain c"
    using assms(2) by (simp_all add: r list_all_iff)
  have "tableToMarkdown t = header_lines hdr @ concat (map body_line body)"
    by (cases "tbody t") (simp_all add: tableToMarkdown_def h body_def)
  moreover have "markdownToTable (header_lines hdr @ concat (map body_line body))
      = Some (map trim hdr # map (map trim) body)"
    using h(2) pl ne by (intro roundtrip_rows) simp_all
  ultimately show ?thesis by (simp add: r)
qed

theorem roundtrip_witness:
  "well_formed spaced_table \<and> list_all (list_all plain) (table_rows spaced_table)
   \<and> markdownToTable (tableToMarkdown spaced_table)
     = Some [[''A'', ''B''], [''1'', ''''], [''x y'', ''---'']]"
proof -
  have w: "well_formed spaced_table" by (simp add: well_formed_def spaced_table_def)
  have p: "list_all (list_all plain) (table_rows spaced_table)"
    by (simp add: table_rows_def plain_def spaced_table_def)
  have e: "map (map trim) (table_rows spaced_table)
      = [[''A'', ''B''], [''1'', ''''], [''x y'', ''---'']]"
    by (simp add: table_rows_def spaced_table_def trim_def is_space_def)
  show ?thesis using w p roundtrip [OF w p] by (simp only: e simp_thms)
qed

text \<open>
  A well-formed table with a pipe in a cell, and one with a line feed in a cell: what
  comes back differs from the table's rows, also after trimming both.
\<close>

theorem roundtrip_counterexample:
  "well_formed pipe_table
   \<and> map_option (map (map trim)) (markdownToTable (tableToMarkdown pipe_table))
      \<noteq> Some (map (map trim) (table_rows pipe_table))
   \<and> well_formed newline_table
   \<and> map_option (map (map trim)) (markdownToTable (tableToMarkdown newline_table))
      \<noteq> Some (map (map trim) (table_rows newline_table))"
  by (simp add: pipe_table_def newline_table_def well_formed_def table_rows_def
      tableToMarkdown_def header_lines_def row_line_def
      markdownToTable_def trim_def is_space_def line_cells_def shift_empty_def pop_empty_def
      is_separator_def sep_char_def)

end
